theory Spec2Isabelle
  imports Complex_Main
begin

section \<open>Calendar dates\<close>

text \<open>
  The scripts work with \<^verbatim>\<open>datetime\<close> values at midnight; only the calendar part is
  ever read (\<^verbatim>\<open>date.month\<close>, \<^verbatim>\<open>date.day\<close>, differences in whole days).
\<close>

record date =
  year :: nat
  month :: nat
  day :: nat

definition is_leap :: "nat \<Rightarrow> bool" where
  "is_leap y = (y mod 4 = 0 \<and> (y mod 100 \<noteq> 0 \<or> y mod 400 = 0))"

definition days_in_month :: "nat \<Rightarrow> nat \<Rightarrow> nat" where
  "days_in_month y m =
     (if m = 2 then (if is_leap y then 29 else 28)
      else if m = 4 \<or> m = 6 \<or> m = 9 \<or> m = 11 then 30 else 31)"

definition next_day :: "date \<Rightarrow> date" where
  "next_day d =
     (if day d < days_in_month (year d) (month d) then d\<lparr>day := day d + 1\<rparr>
      else if month d < 12 then d\<lparr>month := month d + 1, day := 1\<rparr>
      else \<lparr>year = year d + 1, month = 1, day = 1\<rparr>)"

text \<open>\<^verbatim>\<open>d + timedelta(days=n)\<close> for \<open>n \<ge> 0\<close>.\<close>

fun plus_days :: "date \<Rightarrow> nat \<Rightarrow> date" where
  "plus_days d 0 = d"
| "plus_days d (Suc n) = plus_days (next_day d) n"

definition days_before_year :: "nat \<Rightarrow> nat" where
  "days_before_year y = (let p = y - 1 in p * 365 + p div 4 - p div 100 + p div 400)"

definition days_before_month :: "nat \<Rightarrow> nat \<Rightarrow> nat" where
  "days_before_month y m = sum_list (map (days_in_month y) [1..<m])"

definition toordinal :: "date \<Rightarrow> nat" where
  "toordinal d = days_before_year (year d) + days_before_month (year d) (month d) + day d"

text \<open>\<^verbatim>\<open>(a - b).days\<close>.\<close>

definition days_between :: "date \<Rightarrow> date \<Rightarrow> int" where
  "days_between a b = int (toordinal a) - int (toordinal b)"

section \<open>The pseudo-random source\<close>

text \<open>
  \<^verbatim>\<open>np.random\<close> is NumPy's process-wide generator. It is not code of this repository,
  so it is a parameter of the model: a state type \<open>'g\<close> and the primitive draws the
  scripts use, each returning the drawn value and the next state. Floating-point values
  are idealised as reals.
\<close>

record 'g np_random =
  seed :: "nat \<Rightarrow> 'g \<Rightarrow> 'g"
  gauss :: "'g \<Rightarrow> real \<times> 'g"
  random_sample :: "'g \<Rightarrow> real \<times> 'g"
  standard_exponential :: "'g \<Rightarrow> real \<times> 'g"

text \<open>\<^verbatim>\<open>np.random.normal(loc, scale)\<close> is \<open>loc + scale * gauss\<close>.\<close>

definition random_normal :: "'g np_random \<Rightarrow> real \<Rightarrow> real \<Rightarrow> 'g \<Rightarrow> real \<times> 'g" where
  "random_normal R loc scale g = (let (z, g') = gauss R g in (loc + scale * z, g'))"

text \<open>\<^verbatim>\<open>np.random.uniform(low, high)\<close> is \<open>low + (high - low) * random_sample\<close>.\<close>

definition random_uniform :: "'g np_random \<Rightarrow> real \<Rightarrow> real \<Rightarrow> 'g \<Rightarrow> real \<times> 'g" where
  "random_uniform R low high g =
     (let (u, g') = random_sample R g in (low + (high - low) * u, g'))"

text \<open>\<^verbatim>\<open>np.random.exponential(scale)\<close> is \<open>scale * standard_exponential\<close>.\<close>

definition random_exponential :: "'g np_random \<Rightarrow> real \<Rightarrow> 'g \<Rightarrow> real \<times> 'g" where
  "random_exponential R scale g =
     (let (e, g') = standard_exponential R g in (scale * e, g'))"

text \<open>
  The contract of \<^verbatim>\<open>random_sample\<close>: a value of the half-open unit interval.
\<close>

definition unit_interval_draws :: "'g np_random \<Rightarrow> bool" where
  "unit_interval_draws R =
     (\<forall>g. 0 \<le> fst (random_sample R g) \<and> fst (random_sample R g) < 1)"

text \<open>
  A small concrete source (a counter), used to run the model on a concrete input.
\<close>

definition counter_rng :: "nat np_random" where
  "counter_rng =
     \<lparr>seed = (\<lambda>n g. n),
      gauss = (\<lambda>g. (real (g mod 5) - 2, Suc g)),
      random_sample = (\<lambda>g. (real (g mod 10) / 10, Suc g)),
      standard_exponential = (\<lambda>g. (real (g mod 3), Suc g))\<rparr>"

section \<open>generate\_experimental\_data.py\<close>

definition start_date :: date where
  "start_date = \<lparr>year = 2023, month = 1, day = 1\<rparr>"

definition dates :: "date list" where
  "dates = map (plus_days start_date) [0..<100]"

text \<open>
  A \<^verbatim>\<open>for\<close> loop that appends one value per element while the generator state is
  threaded through the iterations.
\<close>

fun for_each :: "('a \<Rightarrow> 'g \<Rightarrow> 'b \<times> 'g) \<Rightarrow> 'a list \<Rightarrow> 'g \<Rightarrow> 'b list \<times> 'g" where
  "for_each body [] g = ([], g)"
| "for_each body (x # xs) g =
     (let (y, g1) = body x g; (ys, g2) = for_each body xs g1 in (y # ys, g2))"

text \<open>\<^verbatim>\<open>int(x)\<close> on a float truncates towards zero.\<close>

definition py_int :: "real \<Rightarrow> int" where
  "py_int x = (if 0 \<le> x then \<lfloor>x\<rfloor> else \<lceil>x\<rceil>)"

definition temperature_body :: "'g np_random \<Rightarrow> nat \<times> date \<Rightarrow> 'g \<Rightarrow> real \<times> 'g" where
  "temperature_body R = (\<lambda>(i, d) g.
     let (temp, g') =
       (if month d = 1 then
          let base = 5 + (real i / 31) * 5;
              (n, g') = random_normal R 0 1.5 g
          in (base + n, g')
        else if month d = 2 then
          let day_in_feb = days_between d \<lparr>year = 2023, month = 2, day = 1\<rparr>;
              base = 10 + (real_of_int day_in_feb / 28) * 5;
              (n, g') = random_normal R 0 1.8 g
          in (base + n, g')
        else if month d = 3 then
          let day_in_mar = days_between d \<lparr>year = 2023, month = 3, day = 1\<rparr>;
              base = 15 + (real_of_int day_in_mar / 31) * 5;
              (n, g') = random_normal R 0 2.0 g
          in (base + n, g')
        else
          let (n, g') = random_normal R 0 2.0 g in (20 + n, g'))
     in (max 0 temp, g'))"

text \<open>
  The air-quality loop reads \<^verbatim>\<open>temperature[i]\<close>; the index is that of the date, and
  the temperature list has one entry per date (\<open>length_for_each\<close> below), so the
  read is always in range.
\<close>

definition aqi_body :: "'g np_random \<Rightarrow> real list \<Rightarrow> nat \<times> date \<Rightarrow> 'g \<Rightarrow> int \<times> 'g" where
  "aqi_body R temperature_list = (\<lambda>(i, d) g.
     let (aqi_val, g') =
       (if month d = 1 then
          let (base, g1) =
                (if 20 \<le> day d \<and> day d \<le> 25 then
                   (if day d \<in> set [21, 22, 23] then
                      let (u, g1) = random_uniform R 0 10 g in (145 + u, g1)
                    else
                      let (u, g1) = random_uniform R (- 5) 10 g in (130 + u, g1))
                 else (150 - (temperature_list ! i) * 12, g));
              (n, g2) = random_normal R 0 3 g1
          in (max 30 (base + n), g2)
        else if month d = 2 then
          let (n, g1) = random_normal R 0 25 g;
              aqi_val = max 30 (80 + n)
          in (if day d \<in> set [12, 18] then max 105 aqi_val else aqi_val, g1)
        else if month d = 3 then
          let (n, g1) = random_normal R 0 10 g in (max 30 (70 + n), g1)
        else
          let (n, g1) = random_normal R 0 8 g in (max 30 (65 + n), g1))
     in (py_int aqi_val, g'))"

definition co2_body :: "'g np_random \<Rightarrow> nat \<times> date \<Rightarrow> 'g \<Rightarrow> real \<times> 'g" where
  "co2_body R = (\<lambda>(i, d) g.
     let base = 410 + 8 * sin (real i / 7);
         (n, g') = random_normal R 0 4 g;
         co2_val = base + n
     in (max 385 (min 435 co2_val), g'))"

definition precipitation_body :: "'g np_random \<Rightarrow> nat \<times> date \<Rightarrow> 'g \<Rightarrow> real \<times> 'g" where
  "precipitation_body R = (\<lambda>(i, d) g.
     let (precip, g') =
       (if month d = 2 \<and> day d \<in> set [12, 18] then random_uniform R 6 15 g
        else
          let (r, g1) = random_sample R g in
          if r < 0.15 then random_exponential R 2.5 g1
          else random_uniform R 0 0.5 g1)
     in (max 0 precip, g'))"

record series =
  temperature :: "real list"
  aqi :: "int list"
  co2 :: "real list"
  precipitation :: "real list"

text \<open>
  The script: seed the process-wide generator once, then run the four loops in order.
  \<open>g0\<close> is whatever state the generator had before the script started.
\<close>

definition generate :: "'g np_random \<Rightarrow> 'g \<Rightarrow> series" where
  "generate R g0 =
     (let g1 = seed R 42 g0;
          (ts, g2) = for_each (temperature_body R) (enumerate 0 dates) g1;
          (as, g3) = for_each (aqi_body R ts) (enumerate 0 dates) g2;
          (cs, g4) = for_each (co2_body R) (enumerate 0 dates) g3;
          (ps, g5) = for_each (precipitation_body R) (enumerate 0 dates) g4
      in \<lparr>temperature = ts, aqi = as, co2 = cs, precipitation = ps\<rparr>)"

text \<open>
  The state of the generator after each of the four loops, named for the proofs;
  \<open>generate_runs\<close> below shows that \<open>generate\<close> is made of exactly these.
\<close>

definition temperature_run :: "'g np_random \<Rightarrow> 'g \<Rightarrow> real list \<times> 'g" where
  "temperature_run R g0 = for_each (temperature_body R) (enumerate 0 dates) (seed R 42 g0)"

definition aqi_run :: "'g np_random \<Rightarrow> 'g \<Rightarrow> int list \<times> 'g" where
  "aqi_run R g0 =
     for_each (aqi_body R (fst (temperature_run R g0))) (enumerate 0 dates)
       (snd (temperature_run R g0))"

definition co2_run :: "'g np_random \<Rightarrow> 'g \<Rightarrow> real list \<times> 'g" where
  "co2_run R g0 = for_each (co2_body R) (enumerate 0 dates) (snd (aqi_run R g0))"

definition precipitation_run :: "'g np_random \<Rightarrow> 'g \<Rightarrow> real list \<times> 'g" where
  "precipitation_run R g0 =
     for_each (precipitation_body R) (enumerate 0 dates) (snd (co2_run R g0))"

subsection \<open>The generator's own checks\<close>

text \<open>\<^verbatim>\<open>xs[a:b]\<close> for \<open>0 \<le> a \<le> b\<close>.\<close>

definition slice :: "nat \<Rightarrow> nat \<Rightarrow> 'a list \<Rightarrow> 'a list" where
  "slice a b xs = take (b - a) (drop a xs)"

text \<open>
  \<^verbatim>\<open>count = sum(1 for p, a in zip(feb_precip, feb_aqi_vals) if p > 5 and a > 100)\<close>
  with \<^verbatim>\<open>feb_precip = precipitation[31:59]\<close> and \<^verbatim>\<open>feb_aqi_vals = aqi[31:59]\<close>.
\<close>

definition feb_joint_count :: "series \<Rightarrow> nat" where
  "feb_joint_count s =
     (let feb_precip = slice 31 59 (precipitation s);
          feb_aqi_vals = slice 31 59 (aqi s)
      in length (filter (\<lambda>(p, a). p > 5 \<and> a > 100) (zip feb_precip feb_aqi_vals)))"

text \<open>
  \<^verbatim>\<open>np.argmax\<close> and pandas' \<^verbatim>\<open>idxmax\<close> return the first position of the maximum: a later
  value replaces the candidate only when it is strictly greater. On an empty
  sequence both raise \<^verbatim>\<open>ValueError\<close>, here \<open>None\<close>.
\<close>

fun first_max :: "nat \<times> real \<Rightarrow> (nat \<times> real) list \<Rightarrow> nat \<times> real" where
  "first_max best [] = best"
| "first_max best (x # xs) = first_max (if snd x > snd best then x else best) xs"

definition argmax :: "(nat \<times> real) list \<Rightarrow> nat option" where
  "argmax xs = (case xs of [] \<Rightarrow> None | x # rest \<Rightarrow> Some (fst (first_max x rest)))"

section \<open>Persisted tables\<close>

text \<open>
  A CSV file as the verifier meets it: absent, present but not parseable as a table
  with a date column and a numeric column, or a table of rows. Writing and parsing the
  text of a float are pandas' and are not modelled: a table holds the values.
\<close>

datatype error = FileNotFoundError | ParserError | IndexingError | ValueError | SystemExit nat

datatype 'a csv_file = Missing | Unreadable | Csv 'a

type_synonym table = "(date \<times> real) list"

record test_data =
  temperature_csv :: "table csv_file"
  air_quality_csv :: "table csv_file"
  co2_csv :: "table csv_file"
  precipitation_csv :: "table csv_file"

text \<open>
  \<^verbatim>\<open>pd.DataFrame({'Date': dates, ...}).to_csv(..., index=False)\<close> for the four series.
\<close>

definition to_csv :: "series \<Rightarrow> test_data" where
  "to_csv s =
     \<lparr>temperature_csv = Csv (zip dates (temperature s)),
      air_quality_csv = Csv (zip dates (map real_of_int (aqi s))),
      co2_csv = Csv (zip dates (co2 s)),
      precipitation_csv = Csv (zip dates (precipitation s))\<rparr>"

section \<open>verify\_tasks.py\<close>

definition and_then :: "error + 'a \<Rightarrow> ('a \<Rightarrow> error + 'b) \<Rightarrow> error + 'b" where
  "and_then r f = (case r of Inl e \<Rightarrow> Inl e | Inr x \<Rightarrow> f x)"

text \<open>
  A data frame read by \<^verbatim>\<open>pd.read_csv\<close> has the default index: row \<open>k\<close> has label \<open>k\<close>.
  Rows keep their labels when a frame is filtered.
\<close>

type_synonym frame = "(nat \<times> date \<times> real) list"

definition read_csv :: "table csv_file \<Rightarrow> error + frame" where
  "read_csv f =
     (case f of
        Missing \<Rightarrow> Inl FileNotFoundError
      | Unreadable \<Rightarrow> Inl ParserError
      | Csv rows \<Rightarrow> Inr (enumerate 0 rows))"

text \<open>\<^verbatim>\<open>df['Date'].dt.month\<close> compared with a constant: a boolean series over the labels.\<close>

definition month_mask :: "(nat \<Rightarrow> bool) \<Rightarrow> frame \<Rightarrow> bool list" where
  "month_mask p df = map (\<lambda>(l, d, v). p (month d)) df"

text \<open>
  \<^verbatim>\<open>df[key]\<close> with a boolean series \<open>key\<close>: pandas looks every label of \<open>df\<close> up in
  the key and raises \<^verbatim>\<open>IndexingError\<close> when one is not there; the dates of \<open>df\<close> itself
  are not looked at.
\<close>

definition getitem_mask :: "frame \<Rightarrow> bool list \<Rightarrow> error + frame" where
  "getitem_mask df key =
     (if length key < length df then Inl IndexingError
      else Inr (filter (\<lambda>(l, d, v). key ! l) df))"

definition column :: "frame \<Rightarrow> real list" where
  "column df = map (\<lambda>(l, d, v). v) df"

text \<open>
  Statistics return \<open>None\<close> where NumPy and pandas return NaN. A comparison with NaN
  is false.
\<close>

definition series_mean :: "real list \<Rightarrow> real option" where
  "series_mean xs = (if xs = [] then None else Some (sum_list xs / real (length xs)))"

definition sum_sq_dev :: "real list \<Rightarrow> real" where
  "sum_sq_dev xs =
     (let m = sum_list xs / real (length xs) in sum_list (map (\<lambda>x. (x - m)\<^sup>2) xs))"

text \<open>pandas' \<^verbatim>\<open>Series.var()\<close>: the sample variance (\<^verbatim>\<open>ddof=1\<close>).\<close>

definition series_var :: "real list \<Rightarrow> real option" where
  "series_var xs =
     (if length xs < 2 then None else Some (sum_sq_dev xs / real (length xs - 1)))"

text \<open>\<^verbatim>\<open>np.var\<close>: the population variance (\<^verbatim>\<open>ddof=0\<close>).\<close>

definition np_var :: "real list \<Rightarrow> real option" where
  "np_var xs = (if xs = [] then None else Some (sum_sq_dev xs / real (length xs)))"

definition sum_co_dev :: "real list \<Rightarrow> real list \<Rightarrow> real" where
  "sum_co_dev xs ys =
     (let mx = sum_list xs / real (length xs); my = sum_list ys / real (length ys)
      in sum_list (map (\<lambda>(x, y). (x - mx) * (y - my)) (zip xs ys)))"

text \<open>
  \<^verbatim>\<open>np.corrcoef(x, y)[0, 1]\<close>: the covariance divided by both standard deviations,
  clipped to \<open>[-1, 1]\<close>; \<^verbatim>\<open>ValueError\<close> when the lengths differ.
\<close>

definition corrcoef :: "real list \<Rightarrow> real list \<Rightarrow> error + real option" where
  "corrcoef xs ys =
     (if length xs \<noteq> length ys then Inl ValueError
      else if length xs < 2 then Inr None
      else
        let n1 = real (length xs - 1);
            cxx = sum_sq_dev xs / n1; cyy = sum_sq_dev ys / n1; cxy = sum_co_dev xs ys / n1
        in if cxx = 0 \<or> cyy = 0 then Inr None
           else Inr (Some (max (- 1) (min 1 (cxy / (sqrt cxx * sqrt cyy))))))"

definition float_gt :: "real option \<Rightarrow> real option \<Rightarrow> bool" where
  "float_gt a b = (case (a, b) of (Some x, Some y) \<Rightarrow> x > y | _ \<Rightarrow> False)"

definition float_lt :: "real option \<Rightarrow> real option \<Rightarrow> bool" where
  "float_lt a b = float_gt b a"

definition float_sub :: "real option \<Rightarrow> real option \<Rightarrow> real option" where
  "float_sub a b = (case (a, b) of (Some x, Some y) \<Rightarrow> Some (x - y) | _ \<Rightarrow> None)"

definition float_abs :: "real option \<Rightarrow> real option" where
  "float_abs a = map_option abs a"

text \<open>
  The builtins \<^verbatim>\<open>max(a, b, ...)\<close> and \<^verbatim>\<open>min(a, b, ...)\<close>: the first argument, replaced
  by each later one that compares strictly greater (smaller).
\<close>

definition py_max :: "real option \<Rightarrow> real option list \<Rightarrow> real option" where
  "py_max a rest = foldl (\<lambda>best x. if float_gt x best then x else best) a rest"

definition py_min :: "real option \<Rightarrow> real option list \<Rightarrow> real option" where
  "py_min a rest = foldl (\<lambda>best x. if float_lt x best then x else best) a rest"

text \<open>T1: which variable shows the highest variability in February.\<close>

definition task1 :: "frame \<Rightarrow> frame \<Rightarrow> frame \<Rightarrow> frame \<Rightarrow> error + bool" where
  "task1 temp_df aqi_df co2_df precip_df =
     (let feb_mask = month_mask (\<lambda>m. m = 2) temp_df in
      and_then (getitem_mask temp_df feb_mask) (\<lambda>feb_temp.
      and_then (getitem_mask aqi_df feb_mask) (\<lambda>feb_aqi.
      and_then (getitem_mask co2_df feb_mask) (\<lambda>feb_co2.
      and_then (getitem_mask precip_df feb_mask) (\<lambda>feb_precip.
        let feb_temp_var = series_var (column feb_temp);
            feb_aqi_var = series_var (column feb_aqi);
            feb_co2_var = series_var (column feb_co2);
            feb_precip_var = series_var (column feb_precip)
        in Inr (float_gt feb_aqi_var (py_max feb_temp_var [feb_co2_var, feb_precip_var])))))))"

text \<open>T2: which variable has the strongest inverse relationship with temperature in January.\<close>

definition task2 :: "frame \<Rightarrow> frame \<Rightarrow> frame \<Rightarrow> frame \<Rightarrow> error + bool" where
  "task2 temp_df aqi_df co2_df precip_df =
     (let jan_mask = month_mask (\<lambda>m. m = 1) temp_df in
      and_then (getitem_mask temp_df jan_mask) (\<lambda>jan_temp.
      and_then (getitem_mask aqi_df jan_mask) (\<lambda>jan_aqi.
      and_then (getitem_mask co2_df jan_mask) (\<lambda>jan_co2.
      and_then (getitem_mask precip_df jan_mask) (\<lambda>jan_precip.
      and_then (corrcoef (column jan_temp) (column jan_aqi)) (\<lambda>corr_aqi.
      and_then (corrcoef (column jan_temp) (column jan_co2)) (\<lambda>corr_co2.
      and_then (corrcoef (column jan_temp) (column jan_precip)) (\<lambda>corr_precip.
        Inr (float_lt corr_aqi (py_min corr_co2 [corr_precip]))))))))))"

text \<open>T3: the date of the air-quality maximum, and whether it is in January 20 to 25.\<close>

definition task3 :: "frame \<Rightarrow> error + date \<times> bool" where
  "task3 aqi_df =
     (let jan_apr_mask = month_mask (\<lambda>m. m \<le> 4) aqi_df in
      and_then (getitem_mask aqi_df jan_apr_mask) (\<lambda>jan_apr.
        case argmax (map (\<lambda>(l, d, v). (l, v)) jan_apr) of
          None \<Rightarrow> Inl ValueError
        | Some max_aqi_idx \<Rightarrow>
            let max_aqi_date = fst (snd (aqi_df ! max_aqi_idx))
            in Inr (max_aqi_date,
                 month max_aqi_date = 1 \<and> 20 \<le> day max_aqi_date \<and> day max_aqi_date \<le> 25)))"

text \<open>T4 and T6: the change of the monthly means from January to March.\<close>

definition task46 :: "frame \<Rightarrow> frame \<Rightarrow> error + bool" where
  "task46 temp_df co2_df =
     (let jan_mask = month_mask (\<lambda>m. m = 1) temp_df;
          mar_mask = month_mask (\<lambda>m. m = 3) temp_df in
      and_then (getitem_mask temp_df jan_mask) (\<lambda>jan_temp.
      and_then (getitem_mask temp_df mar_mask) (\<lambda>mar_temp.
      and_then (getitem_mask co2_df jan_mask) (\<lambda>jan_co2.
      and_then (getitem_mask co2_df mar_mask) (\<lambda>mar_co2.
        let temp_increase = float_sub (series_mean (column mar_temp)) (series_mean (column jan_temp));
            co2_change = float_sub (series_mean (column mar_co2)) (series_mean (column jan_co2))
        in Inr (float_gt temp_increase (Some 10) \<and> float_lt (float_abs co2_change) (Some 5)))))))"

text \<open>
  T5: the February days with precipitation above 5 and air quality above 100. The two
  boolean series are combined with \<^verbatim>\<open>&\<close>, which pairs them by label; a label present
  in only one of them counts as false.
\<close>

definition task5 :: "frame \<Rightarrow> frame \<Rightarrow> frame \<Rightarrow> error + nat \<times> bool" where
  "task5 temp_df aqi_df precip_df =
     (let feb_mask = month_mask (\<lambda>m. m = 2) temp_df in
      and_then (getitem_mask precip_df feb_mask) (\<lambda>feb_precip.
      and_then (getitem_mask aqi_df feb_mask) (\<lambda>feb_aqi.
        let feb_precip_high = map fst (filter (\<lambda>(l, d, v). v > 5) feb_precip);
            feb_aqi_high = map fst (filter (\<lambda>(l, d, v). v > 100) feb_aqi);
            count = length (filter (\<lambda>l. l \<in> set feb_aqi_high) feb_precip_high)
        in Inr (count, count \<in> set [1, 2]))))"

record report =
  t1_pass :: bool
  t2_pass :: bool
  max_aqi_date :: date
  t3_pass :: bool
  t46_pass :: bool
  t5_count :: nat
  t5_pass :: bool

text \<open>
  The script: read the four files, then the five checks in order. An exception
  (\<open>Inl\<close>) ends the run; nothing after it is printed.
\<close>

definition verify_tasks :: "test_data \<Rightarrow> error + report" where
  "verify_tasks fs =
     and_then (read_csv (temperature_csv fs)) (\<lambda>temp_df.
     and_then (read_csv (air_quality_csv fs)) (\<lambda>aqi_df.
     and_then (read_csv (co2_csv fs)) (\<lambda>co2_df.
     and_then (read_csv (precipitation_csv fs)) (\<lambda>precip_df.
     and_then (task1 temp_df aqi_df co2_df precip_df) (\<lambda>t1.
     and_then (task2 temp_df aqi_df co2_df precip_df) (\<lambda>t2.
     and_then (task3 aqi_df) (\<lambda>(d3, t3).
     and_then (task46 temp_df co2_df) (\<lambda>t46.
     and_then (task5 temp_df aqi_df precip_df) (\<lambda>(n5, t5).
       Inr \<lparr>t1_pass = t1, t2_pass = t2, max_aqi_date = d3, t3_pass = t3,
            t46_pass = t46, t5_count = n5, t5_pass = t5\<rparr>)))))))))"



section \<open>verify-task-answers.py: loading the combined table\<close>

text \<open>
  \<^verbatim>\<open>load_data\<close> catches every exception of \<^verbatim>\<open>pd.read_csv\<close> and ends the process with
  \<^verbatim>\<open>sys.exit(1)\<close>.
\<close>

definition load_data :: "'a csv_file \<Rightarrow> error + 'a" where
  "load_data f =
     (case f of
        Missing \<Rightarrow> Inl (SystemExit 1)
      | Unreadable \<Rightarrow> Inl (SystemExit 1)
      | Csv data \<Rightarrow> Inr data)"

section \<open>An input with misaligned date ranges\<close>


text \<open>A file that is missing or cannot be read as a table.\<close>

definition unavailable :: "'a csv_file \<Rightarrow> bool" where
  "unavailable f = (case f of Csv data \<Rightarrow> False | _ \<Rightarrow> True)"

section \<open>Properties of the loops\<close>

lemma fst_for_each_Cons:
  "fst (for_each body (x # xs) g) =
     fst (body x g) # fst (for_each body xs (snd (body x g)))"
  by (simp add: Let_def case_prod_unfold)

lemma length_for_each: "length (fst (for_each body xs g)) = length xs"
  by (induction xs arbitrary: g) (simp_all add: fst_for_each_Cons del: for_each.simps(2))

lemma for_each_nth:
  assumes "\<And>x g. P x (fst (body x g))" and "k < length xs"
  shows "P (xs ! k) (fst (for_each body xs g) ! k)"
  using assms(2)
proof (induction xs arbitrary: g k)
  case Nil
  then show ?case by simp
next
  case (Cons x xs)
  show ?case
  proof (cases k)
    case 0
    have "P x (fst (body x g))" by (rule assms(1))
    with 0 show ?thesis by (simp add: fst_for_each_Cons del: for_each.simps(2))
  next
    case (Suc j)
    with Cons.prems have "j < length xs" by simp
    from Cons.IH [OF this, of "snd (body x g)"] Suc show ?thesis
      by (simp add: fst_for_each_Cons del: for_each.simps(2))
  qed
qed

lemma for_each_all:
  assumes "\<And>x g. Q (fst (body x g))"
  shows "\<forall>y \<in> set (fst (for_each body xs g)). Q y"
  by (induction xs arbitrary: g)
     (simp_all add: fst_for_each_Cons assms del: for_each.simps(2))

lemma length_dates: "length dates = 100"
  by (simp add: dates_def)

section \<open>The dates of the horizon\<close>

lemma plus_days_same_month:
  "day d + n \<le> days_in_month (year d) (month d) \<Longrightarrow> plus_days d n = d\<lparr>day := day d + n\<rparr>"
  by (induction n arbitrary: d) (simp_all add: next_day_def)

lemma plus_days_add: "plus_days d (m + n) = plus_days (plus_days d m) n"
  by (induction m arbitrary: d) simp_all

lemma plus_days_Suc_right: "plus_days d (Suc n) = next_day (plus_days d n)"
  by (induction n arbitrary: d) simp_all

lemma in_january: "i < 31 \<Longrightarrow> plus_days start_date i = \<lparr>year = 2023, month = 1, day = i + 1\<rparr>"
  by (simp add: plus_days_same_month start_date_def days_in_month_def)

lemma first_of_february: "plus_days start_date 31 = \<lparr>year = 2023, month = 2, day = 1\<rparr>"
proof -
  have "plus_days start_date (Suc 30) = next_day (plus_days start_date 30)"
    by (rule plus_days_Suc_right)
  then show ?thesis
    by (simp add: in_january next_day_def days_in_month_def)
qed

lemma in_february:
  assumes "31 \<le> i" and "i < 59"
  shows "plus_days start_date i = \<lparr>year = 2023, month = 2, day = i - 30\<rparr>"
proof -
  have "plus_days start_date (31 + (i - 31)) = plus_days (plus_days start_date 31) (i - 31)"
    by (rule plus_days_add)
  with assms show ?thesis
    by (simp add: first_of_february plus_days_same_month days_in_month_def is_leap_def)
qed

lemma first_of_march: "plus_days start_date 59 = \<lparr>year = 2023, month = 3, day = 1\<rparr>"
proof -
  have "plus_days start_date (Suc 58) = next_day (plus_days start_date 58)"
    by (rule plus_days_Suc_right)
  then show ?thesis
    by (simp add: in_february next_day_def days_in_month_def is_leap_def)
qed

lemma in_march:
  assumes "59 \<le> i" and "i < 90"
  shows "plus_days start_date i = \<lparr>year = 2023, month = 3, day = i - 58\<rparr>"
proof -
  have "plus_days start_date (59 + (i - 59)) = plus_days (plus_days start_date 59) (i - 59)"
    by (rule plus_days_add)
  with assms show ?thesis
    by (simp add: first_of_march plus_days_same_month days_in_month_def)
qed

lemma first_of_april: "plus_days start_date 90 = \<lparr>year = 2023, month = 4, day = 1\<rparr>"
proof -
  have "plus_days start_date (Suc 89) = next_day (plus_days start_date 89)"
    by (rule plus_days_Suc_right)
  then show ?thesis
    by (simp add: in_march next_day_def days_in_month_def)
qed

lemma in_april:
  assumes "90 \<le> i" and "i < 120"
  shows "plus_days start_date i = \<lparr>year = 2023, month = 4, day = i - 89\<rparr>"
proof -
  have "plus_days start_date (90 + (i - 90)) = plus_days (plus_days start_date 90) (i - 90)"
    by (rule plus_days_add)
  with assms show ?thesis
    by (simp add: first_of_april plus_days_same_month days_in_month_def)
qed

lemma dates_nth: "i < 100 \<Longrightarrow> dates ! i = plus_days start_date i"
  by (simp add: dates_def)

lemma enumerate_dates_nth: "i < 100 \<Longrightarrow> enumerate 0 dates ! i = (i, plus_days start_date i)"
  by (simp add: nth_enumerate_eq dates_def)


lemma length_enumerate_dates: "length (enumerate 0 dates) = 100"
  by (simp add: length_dates)

section \<open>Bounds enforced by the loop bodies\<close>

lemma temperature_body_nonneg: "0 \<le> fst (temperature_body R x g)"
  by (simp add: temperature_body_def Let_def case_prod_unfold)

lemma py_int_ge: "real_of_int k \<le> x \<Longrightarrow> 0 \<le> k \<Longrightarrow> k \<le> py_int x"
  by (simp add: py_int_def le_floor_iff)

lemma aqi_body_ge: "30 \<le> fst (aqi_body R ts x g)"
proof -
  obtain i d where x: "x = (i, d)" by (cases x)
  show ?thesis
    unfolding x aqi_body_def
    by (simp add: Let_def split_beta py_int_ge del: set_simps)
qed

lemma co2_body_bounds: "385 \<le> fst (co2_body R x g) \<and> fst (co2_body R x g) \<le> 435"
  by (simp add: co2_body_def Let_def case_prod_unfold)

lemma precipitation_body_nonneg: "0 \<le> fst (precipitation_body R x g)"
  by (simp add: precipitation_body_def Let_def case_prod_unfold)


lemma generate_runs:
  "generate R g0 =
     \<lparr>temperature = fst (temperature_run R g0), aqi = fst (aqi_run R g0),
      co2 = fst (co2_run R g0), precipitation = fst (precipitation_run R g0)\<rparr>"
  unfolding generate_def temperature_run_def aqi_run_def co2_run_def precipitation_run_def
  by (simp only: Let_def split_beta)

lemma generate_fields:
  "temperature (generate R g0) = fst (temperature_run R g0)"
  "aqi (generate R g0) = fst (aqi_run R g0)"
  "co2 (generate R g0) = fst (co2_run R g0)"
  "precipitation (generate R g0) = fst (precipitation_run R g0)"
  by (simp_all add: generate_runs)

lemma run_lengths:
  "length (fst (temperature_run R g0)) = 100"
  "length (fst (aqi_run R g0)) = 100"
  "length (fst (co2_run R g0)) = 100"
  "length (fst (precipitation_run R g0)) = 100"
  by (simp_all add: temperature_run_def aqi_run_def co2_run_def precipitation_run_def
        length_for_each length_dates)

section \<open>Shape and sign of the generated series\<close>

text \<open>
  C6. The generator outputs exactly four series (the four fields of \<open>series\<close>), each
  of length 100, the horizon (the number of dates); every temperature, co2 and
  precipitation value is non-negative, and every air-quality value is an integer (the
  type \<open>int\<close>, from \<^verbatim>\<open>int(aqi_val)\<close>) that is non-negative. This holds for every
  pseudo-random source and every prior generator state.
\<close>

theorem generate_four_nonnegative_series:
  "length (temperature (generate R g0)) = 100 \<and>
   length (aqi (generate R g0)) = 100 \<and>
   length (co2 (generate R g0)) = 100 \<and>
   length (precipitation (generate R g0)) = 100 \<and>
   length dates = 100 \<and>
   (\<forall>v \<in> set (temperature (generate R g0)). 0 \<le> v) \<and>
   (\<forall>a \<in> set (aqi (generate R g0)). 0 \<le> a) \<and>
   (\<forall>v \<in> set (co2 (generate R g0)). 0 \<le> v) \<and>
   (\<forall>v \<in> set (precipitation (generate R g0)). 0 \<le> v)"
proof -
  have t: "\<forall>v \<in> set (fst (temperature_run R g0)). 0 \<le> v"
    unfolding temperature_run_def
    by (rule for_each_all) (rule temperature_body_nonneg)
  have "\<forall>a \<in> set (fst (aqi_run R g0)). 30 \<le> a"
    unfolding aqi_run_def by (rule for_each_all) (rule aqi_body_ge)
  then have a: "\<forall>a \<in> set (fst (aqi_run R g0)). 0 \<le> a"
    by fastforce
  have "\<forall>v \<in> set (fst (co2_run R g0)). 385 \<le> v"
    unfolding co2_run_def by (rule for_each_all) (simp add: co2_body_bounds)
  then have c: "\<forall>v \<in> set (fst (co2_run R g0)). 0 \<le> v"
    by fastforce
  have p: "\<forall>v \<in> set (fst (precipitation_run R g0)). 0 \<le> v"
    unfolding precipitation_run_def
    by (rule for_each_all) (rule precipitation_body_nonneg)
  from t a c p show ?thesis
    by (simp add: generate_fields run_lengths length_dates)
qed

theorem generate_four_nonnegative_series_witness:
  "length (temperature (generate counter_rng 0)) = 100 \<and>
   length (aqi (generate counter_rng 0)) = 100 \<and>
   0 \<le> temperature (generate counter_rng 0) ! 0 \<and>
   0 \<le> aqi (generate counter_rng 0) ! 42 \<and>
   0 \<le> co2 (generate counter_rng 0) ! 58 \<and>
   0 \<le> precipitation (generate counter_rng 0) ! 99"
  using generate_four_nonnegative_series [of counter_rng 0]
  by (simp add: all_set_conv_all_nth)

section \<open>The verifier on tables written by the generator\<close>

lemma filter_upt_range:
  assumes "a \<le> b" and "b \<le> n"
  shows "filter (\<lambda>k. a \<le> k \<and> k < b) [0..<n] = [a..<b]"
proof -
  have split: "[0..<n] = [0..<a] @ [a..<b] @ [b..<n]"
    using assms by (metis le_add_diff_inverse upt_add_eq_append zero_le le_trans)
  have 1: "filter (\<lambda>k. a \<le> k \<and> k < b) [0..<a] = []"
    by (simp add: filter_empty_conv)
  have 2: "filter (\<lambda>k. a \<le> k \<and> k < b) [a..<b] = [a..<b]"
    by (simp add: filter_id_conv)
  have 3: "filter (\<lambda>k. a \<le> k \<and> k < b) [b..<n] = []"
    by (simp add: filter_empty_conv)
  show ?thesis
    by (simp only: split filter_append 1 2 3 append_Nil append_Nil2)
qed

lemma enumerate_zip_dates:
  assumes "length vs = length ds"
  shows "enumerate 0 (zip ds vs) = map (\<lambda>k. (k, ds ! k, vs ! k)) [0..<length ds]"
  using assms by (intro nth_equalityI) (simp_all add: nth_enumerate_eq)

lemma month_of_index:
  assumes "k < 100"
  shows "month (dates ! k) = (if k < 31 then 1 else if k < 59 then 2 else if k < 90 then 3 else 4)"
  using assms by (simp add: dates_nth in_january in_february in_march in_april)

lemma getitem_month_mask:
  assumes vs: "length vs = 100" and ws: "length ws = 100"
    and p: "\<And>k. k < 100 \<Longrightarrow> p (month (dates ! k)) \<longleftrightarrow> a \<le> k \<and> k < b"
    and ab: "a \<le> b" "b \<le> 100"
  shows "getitem_mask (enumerate 0 (zip dates vs)) (month_mask p (enumerate 0 (zip dates ws)))
           = Inr (map (\<lambda>k. (k, dates ! k, vs ! k)) [a..<b])"
proof -
  let ?f = "\<lambda>k. (k, dates ! k, vs ! k)"
  have fv: "enumerate 0 (zip dates vs) = map ?f [0..<100]"
    using enumerate_zip_dates [of vs dates] vs by (simp only: length_dates)
  have fw: "enumerate 0 (zip dates ws) = map (\<lambda>k. (k, dates ! k, ws ! k)) [0..<100]"
    using enumerate_zip_dates [of ws dates] ws by (simp only: length_dates)
  have m: "month_mask p (enumerate 0 (zip dates ws)) = map (\<lambda>k. p (month (dates ! k))) [0..<100]"
    by (simp only: fw month_mask_def) (simp del: upt_rec_numeral)
  have "filter (\<lambda>(l, d, v). map (\<lambda>k. p (month (dates ! k))) [0..<100] ! l) (map ?f [0..<100])
          = map ?f (filter (\<lambda>k. a \<le> k \<and> k < b) [0..<100])"
    unfolding filter_map
    by (rule arg_cong [where f = "map ?f"], rule filter_cong) (simp_all add: p del: upt_rec_numeral)
  also have "\<dots> = map ?f [a..<b]"
    using ab by (simp only: filter_upt_range)
  finally show ?thesis
    by (simp add: getitem_mask_def m fv del: upt_rec_numeral)
qed

lemma map_nth_slice:
  assumes "b \<le> length vs"
  shows "map (nth vs) [a..<b] = slice a b vs"
  by (rule map_upt_eqI) (use assms in \<open>simp_all add: slice_def\<close>)

lemma column_rows:
  assumes "b \<le> length vs"
  shows "column (map (\<lambda>k. (k, ds ! k, vs ! k)) [a..<b]) = slice a b vs"
proof -
  have "column (map (\<lambda>k. (k, ds ! k, vs ! k)) [a..<b]) = map (nth vs) [a..<b]"
    by (simp add: column_def comp_def del: upt_rec_numeral)
  then show ?thesis
    by (simp only: map_nth_slice [OF assms])
qed

lemma first_max_fst_in:
  "fst (first_max b xs) \<in> fst ` set (b # xs)"
  by (induction xs arbitrary: b) auto

lemma argmax_some: "xs \<noteq> [] \<Longrightarrow> \<exists>i. argmax xs = Some i \<and> i \<in> fst ` set xs"
  using first_max_fst_in by (cases xs) (auto simp: argmax_def)


lemma month_ranges:
  assumes "k < 100"
  shows "month (dates ! k) = 1 \<longleftrightarrow> 0 \<le> k \<and> k < 31"
    and "month (dates ! k) = 2 \<longleftrightarrow> 31 \<le> k \<and> k < 59"
    and "month (dates ! k) = 3 \<longleftrightarrow> 59 \<le> k \<and> k < 90"
    and "month (dates ! k) \<le> 4 \<longleftrightarrow> 0 \<le> k \<and> k < 100"
  using assms by (simp_all add: month_of_index)

lemma select_january:
  assumes "length vs = 100" and "length ws = 100"
  shows "getitem_mask (enumerate 0 (zip dates vs))
           (month_mask (\<lambda>m. m = 1) (enumerate 0 (zip dates ws)))
         = Inr (map (\<lambda>k. (k, dates ! k, vs ! k)) [0..<31])"
  by (rule getitem_month_mask [OF assms]) (simp_all add: month_of_index)

lemma select_february:
  assumes "length vs = 100" and "length ws = 100"
  shows "getitem_mask (enumerate 0 (zip dates vs))
           (month_mask (\<lambda>m. m = 2) (enumerate 0 (zip dates ws)))
         = Inr (map (\<lambda>k. (k, dates ! k, vs ! k)) [31..<59])"
  by (rule getitem_month_mask [OF assms]) (simp_all add: month_ranges)

lemma select_march:
  assumes "length vs = 100" and "length ws = 100"
  shows "getitem_mask (enumerate 0 (zip dates vs))
           (month_mask (\<lambda>m. m = 3) (enumerate 0 (zip dates ws)))
         = Inr (map (\<lambda>k. (k, dates ! k, vs ! k)) [59..<90])"
  by (rule getitem_month_mask [OF assms]) (simp_all add: month_ranges)

lemma select_january_to_april:
  assumes "length vs = 100" and "length ws = 100"
  shows "getitem_mask (enumerate 0 (zip dates vs))
           (month_mask (\<lambda>m. m \<le> 4) (enumerate 0 (zip dates ws)))
         = Inr (map (\<lambda>k. (k, dates ! k, vs ! k)) [0..<100])"
  by (rule getitem_month_mask [OF assms]) (simp_all add: month_ranges)

lemma and_then_Inr: "and_then (Inr x) f = f x"
  by (simp add: and_then_def)

lemma task1_aligned:
  assumes "length ts = 100" and "length as = 100" and "length cs = 100" and "length ps = 100"
  shows "task1 (enumerate 0 (zip dates ts)) (enumerate 0 (zip dates as))
           (enumerate 0 (zip dates cs)) (enumerate 0 (zip dates ps))
         = Inr (float_gt (series_var (slice 31 59 as))
                  (py_max (series_var (slice 31 59 ts))
                     [series_var (slice 31 59 cs), series_var (slice 31 59 ps)]))"
  unfolding task1_def Let_def
  by (simp only: select_february assms and_then_Inr column_rows) 


lemma corrcoef_same_length:
  "length xs = length ys \<Longrightarrow> corrcoef xs ys = Inr (projr (corrcoef xs ys))"
  by (simp add: corrcoef_def Let_def)

lemma length_slice_100: "length xs = 100 \<Longrightarrow> b \<le> 100 \<Longrightarrow> length (slice a b xs) = b - a"
  by (simp add: slice_def)

lemma task2_aligned:
  assumes "length ts = 100" and "length as = 100" and "length cs = 100" and "length ps = 100"
  shows "\<not> isl (task2 (enumerate 0 (zip dates ts)) (enumerate 0 (zip dates as))
           (enumerate 0 (zip dates cs)) (enumerate 0 (zip dates ps)))"
proof -
  have c: "corrcoef (slice 0 31 ts) (slice 0 31 as) = Inr (projr (corrcoef (slice 0 31 ts) (slice 0 31 as)))"
       "corrcoef (slice 0 31 ts) (slice 0 31 cs) = Inr (projr (corrcoef (slice 0 31 ts) (slice 0 31 cs)))"
       "corrcoef (slice 0 31 ts) (slice 0 31 ps) = Inr (projr (corrcoef (slice 0 31 ts) (slice 0 31 ps)))"
    by (rule corrcoef_same_length, simp add: length_slice_100 assms)+
  show ?thesis
    unfolding task2_def Let_def
    apply (simp only: select_january assms and_then_Inr column_rows)
    apply (subst c(1), simp only: and_then_Inr)
    apply (subst c(2), simp only: and_then_Inr)
    apply (subst c(3), simp only: and_then_Inr)
    apply simp
    done
qed

lemma task3_aligned:
  assumes "length as = 100"
  shows "\<not> isl (task3 (enumerate 0 (zip dates as)))"
proof -
  let ?rows = "map (\<lambda>k. (k, dates ! k, as ! k)) [0..<100]"
  have "map (\<lambda>(l, d, v). (l, v)) ?rows \<noteq> []"
    by (simp del: upt_rec_numeral)
  then obtain i where "argmax (map (\<lambda>(l, d, v). (l, v)) ?rows) = Some i"
    using argmax_some by blast
  then show ?thesis
    unfolding task3_def Let_def
    by (simp only: select_january_to_april assms and_then_Inr) simp
qed

lemma task46_aligned:
  assumes "length ts = 100" and "length cs = 100"
  shows "\<not> isl (task46 (enumerate 0 (zip dates ts)) (enumerate 0 (zip dates cs)))"
  unfolding task46_def Let_def
  by (simp only: select_january select_march assms and_then_Inr) simp

lemma high_labels:
  "map fst (filter (\<lambda>(l, d, v). c < v) (map (\<lambda>k. (k, ds ! k, vs ! k)) ks))
     = filter (\<lambda>k. c < vs ! k) ks"
  by (induction ks) simp_all

lemma joint_labels:
  "filter (\<lambda>l. l \<in> set (filter Q ks)) (filter P ks) = filter (\<lambda>k. P k \<and> Q k) ks"
  unfolding filter_filter by (rule filter_cong) auto

lemma task5_aligned:
  assumes "length ts = 100" and "length as = 100" and "length ps = 100"
  shows "task5 (enumerate 0 (zip dates ts)) (enumerate 0 (zip dates as)) (enumerate 0 (zip dates ps))
         = (let count = length (filter (\<lambda>k. 5 < ps ! k \<and> 100 < as ! k) [31..<59])
            in Inr (count, count \<in> set [1, 2]))"
  unfolding task5_def Let_def
  by (simp only: select_february assms and_then_Inr high_labels joint_labels)


lemma not_isl_Inr: "\<not> isl r \<Longrightarrow> r = Inr (projr r)"
  by (cases r) simp_all

lemma read_csv_Csv: "read_csv (Csv rows) = Inr (enumerate 0 rows)"
  by (simp add: read_csv_def)

lemma joint_count_by_index:
  assumes "length ps = 100" and "length ai = 100"
  shows "length (filter (\<lambda>k. 5 < ps ! k \<and> 100 < map real_of_int ai ! k) [31..<59])
         = length (filter (\<lambda>(p, a). p > 5 \<and> a > 100) (zip (slice 31 59 ps) (slice 31 59 ai)))"
proof -
  have z: "zip (slice 31 59 ps) (slice 31 59 ai) = map (\<lambda>k. (ps ! k, ai ! k)) [31..<59]"
    using assms
    by (simp only: map_nth_slice [symmetric] zip_map_map zip_same_conv_map)
       (simp del: upt_rec_numeral)
  have "filter (\<lambda>k. 5 < ps ! k \<and> 100 < map real_of_int ai ! k) [31..<59]
        = filter (\<lambda>k. 5 < ps ! k \<and> 100 < ai ! k) [31..<59]"
    by (rule filter_cong) (use assms in \<open>simp_all del: upt_rec_numeral\<close>)
  then show ?thesis
    by (simp only: z filter_map length_map comp_def) (simp del: upt_rec_numeral)
qed

lemma verify_tasks_aligned:
  assumes "length ts = 100" and "length ai = 100" and "length cs = 100" and "length ps = 100"
  defines "fs \<equiv> \<lparr>temperature_csv = Csv (zip dates ts),
                   air_quality_csv = Csv (zip dates (map real_of_int ai)),
                   co2_csv = Csv (zip dates cs), precipitation_csv = Csv (zip dates ps)\<rparr>"
  shows "\<not> isl (verify_tasks fs)"
    and "t1_pass (projr (verify_tasks fs)) =
           float_gt (series_var (slice 31 59 (map real_of_int ai)))
             (py_max (series_var (slice 31 59 ts))
                [series_var (slice 31 59 cs), series_var (slice 31 59 ps)])"
    and "t5_count (projr (verify_tasks fs)) =
           length (filter (\<lambda>(p, a). p > 5 \<and> a > 100) (zip (slice 31 59 ps) (slice 31 59 ai)))"
    and "t5_pass (projr (verify_tasks fs)) = (t5_count (projr (verify_tasks fs)) \<in> {1, 2})"
proof -
  let ?T = "enumerate 0 (zip dates ts)" and ?A = "enumerate 0 (zip dates (map real_of_int ai))"
  let ?C = "enumerate 0 (zip dates cs)" and ?P = "enumerate 0 (zip dates ps)"
  have la: "length (map real_of_int ai) = 100" using assms(2) by simp
  note t1 = task1_aligned [OF assms(1) la assms(3,4)]
  note t2 = not_isl_Inr [OF task2_aligned [OF assms(1) la assms(3,4)]]
  note t3 = not_isl_Inr [OF task3_aligned [OF la]]
  note t46 = not_isl_Inr [OF task46_aligned [OF assms(1,3)]]
  note t5 = task5_aligned [OF assms(1) la assms(4)]
  have v: "verify_tasks fs =
      Inr \<lparr>t1_pass = float_gt (series_var (slice 31 59 (map real_of_int ai)))
               (py_max (series_var (slice 31 59 ts))
                  [series_var (slice 31 59 cs), series_var (slice 31 59 ps)]),
           t2_pass = projr (task2 ?T ?A ?C ?P),
           max_aqi_date = fst (projr (task3 ?A)), t3_pass = snd (projr (task3 ?A)),
           t46_pass = projr (task46 ?T ?C),
           t5_count = length (filter (\<lambda>k. 5 < ps ! k \<and> 100 < map real_of_int ai ! k) [31..<59]),
           t5_pass = (length (filter (\<lambda>k. 5 < ps ! k \<and> 100 < map real_of_int ai ! k) [31..<59])
                        \<in> set [1, 2])\<rparr>"
    unfolding verify_tasks_def fs_def
    apply (simp only: test_data.simps read_csv_Csv and_then_Inr t1 t5 Let_def)
    apply (subst t2, simp only: and_then_Inr)
    apply (subst t3, simp only: and_then_Inr)
    apply (subst t46, simp only: and_then_Inr)
    apply (simp only: split_beta and_then_Inr fst_conv snd_conv)
    done
  show "\<not> isl (verify_tasks fs)" by (simp only: v) simp
  show "t1_pass (projr (verify_tasks fs)) =
           float_gt (series_var (slice 31 59 (map real_of_int ai)))
             (py_max (series_var (slice 31 59 ts))
                [series_var (slice 31 59 cs), series_var (slice 31 59 ps)])"
    by (simp only: v) simp
  show c: "t5_count (projr (verify_tasks fs)) =
           length (filter (\<lambda>(p, a). p > 5 \<and> a > 100) (zip (slice 31 59 ps) (slice 31 59 ai)))"
    by (simp only: v joint_count_by_index [OF assms(4,2), symmetric]) simp
  show "t5_pass (projr (verify_tasks fs)) = (t5_count (projr (verify_tasks fs)) \<in> {1, 2})"
    by (simp only: v) simp
qed


lemma verify_generated:
  shows "\<not> isl (verify_tasks (to_csv (generate R g0)))"
    and "t1_pass (projr (verify_tasks (to_csv (generate R g0)))) =
           float_gt (series_var (slice 31 59 (map real_of_int (aqi (generate R g0)))))
             (py_max (series_var (slice 31 59 (temperature (generate R g0))))
                [series_var (slice 31 59 (co2 (generate R g0))),
                 series_var (slice 31 59 (precipitation (generate R g0)))])"
    and "t5_count (projr (verify_tasks (to_csv (generate R g0)))) =
           feb_joint_count (generate R g0)"
    and "t5_pass (projr (verify_tasks (to_csv (generate R g0)))) =
           (feb_joint_count (generate R g0) \<in> {1, 2})"
proof -
  note l = generate_fields run_lengths
  have len: "length (temperature (generate R g0)) = 100" "length (aqi (generate R g0)) = 100"
    "length (co2 (generate R g0)) = 100" "length (precipitation (generate R g0)) = 100"
    by (simp_all only: l)
  note v = verify_tasks_aligned [OF len, folded to_csv_def]
  show "\<not> isl (verify_tasks (to_csv (generate R g0)))" by (rule v(1))
  show "t1_pass (projr (verify_tasks (to_csv (generate R g0)))) =
           float_gt (series_var (slice 31 59 (map real_of_int (aqi (generate R g0)))))
             (py_max (series_var (slice 31 59 (temperature (generate R g0))))
                [series_var (slice 31 59 (co2 (generate R g0))),
                 series_var (slice 31 59 (precipitation (generate R g0)))])"
    by (rule v(2))
  show c: "t5_count (projr (verify_tasks (to_csv (generate R g0)))) =
           feb_joint_count (generate R g0)"
    by (simp only: v(3) feb_joint_count_def Let_def)
  show "t5_pass (projr (verify_tasks (to_csv (generate R g0)))) =
           (feb_joint_count (generate R g0) \<in> {1, 2})"
    by (simp only: v(4) c)
qed

section \<open>The forced February days\<close>

lemma aqi_body_forced:
  assumes "month (snd x) = 2" and "day (snd x) = 12 \<or> day (snd x) = 18"
  shows "105 \<le> fst (aqi_body R ts x g)"
proof -
  obtain i d where x: "x = (i, d)" by (cases x)
  from assms show ?thesis
    unfolding x aqi_body_def
    by (auto simp add: Let_def split_beta py_int_ge)
qed

lemma precipitation_body_forced:
  assumes "unit_interval_draws R"
    and "month (snd x) = 2" and "day (snd x) = 12 \<or> day (snd x) = 18"
  shows "6 \<le> fst (precipitation_body R x g) \<and> fst (precipitation_body R x g) < 15"
proof -
  obtain i d where x: "x = (i, d)" by (cases x)
  have u: "0 \<le> fst (random_sample R g)" "fst (random_sample R g) < 1"
    using assms(1) by (simp_all add: unit_interval_draws_def)
  from assms(2,3) u show ?thesis
    unfolding x precipitation_body_def random_uniform_def
    by (auto simp add: Let_def split_beta)
qed

lemma two_hits_count:
  assumes "i < j" and "j < length zs" and "P (zs ! i)" and "P (zs ! j)"
  shows "2 \<le> length (filter P zs)"
proof -
  have "{i, j} \<subseteq> {k. k < length zs \<and> P (zs ! k)}"
    using assms by auto
  then have "card {i, j} \<le> card {k. k < length zs \<and> P (zs ! k)}"
    by (intro card_mono) auto
  moreover have "card {i, j} = 2"
    using assms(1) by simp
  ultimately show ?thesis
    by (simp add: length_filter_conv_card)
qed

lemma slice_nth: "a + k < b \<Longrightarrow> b \<le> length xs \<Longrightarrow> slice a b xs ! k = xs ! (a + k)"
  by (simp add: slice_def)

lemma length_slice: "b \<le> length xs \<Longrightarrow> length (slice a b xs) = b - a"
  by (simp add: slice_def)

lemma date_feb_12: "enumerate 0 dates ! 42 = (42, \<lparr>year = 2023, month = 2, day = 12\<rparr>)"
  by (simp add: enumerate_dates_nth in_february)

lemma date_feb_18: "enumerate 0 dates ! 48 = (48, \<lparr>year = 2023, month = 2, day = 18\<rparr>)"
  by (simp add: enumerate_dates_nth in_february)

lemma aqi_forced_nth:
  assumes "k < 100" and "month (snd (enumerate 0 dates ! k)) = 2"
    and "day (snd (enumerate 0 dates ! k)) = 12 \<or> day (snd (enumerate 0 dates ! k)) = 18"
  shows "105 \<le> aqi (generate R g0) ! k"
proof -
  let ?P = "\<lambda>x y. month (snd x) = 2 \<and> (day (snd x) = 12 \<or> day (snd x) = 18) \<longrightarrow> (105::int) \<le> y"
  have "?P (enumerate 0 dates ! k)
          (fst (for_each (aqi_body R (fst (temperature_run R g0))) (enumerate 0 dates)
             (snd (temperature_run R g0))) ! k)"
    by (rule for_each_nth [where P = ?P]) (use assms(1) in \<open>simp_all add: aqi_body_forced length_dates\<close>)
  with assms(2,3) show ?thesis
    by (simp add: generate_fields aqi_run_def)
qed

lemma precipitation_forced_nth:
  assumes "unit_interval_draws R" and "k < 100" and "month (snd (enumerate 0 dates ! k)) = 2"
    and "day (snd (enumerate 0 dates ! k)) = 12 \<or> day (snd (enumerate 0 dates ! k)) = 18"
  shows "6 \<le> precipitation (generate R g0) ! k \<and> precipitation (generate R g0) ! k < 15"
proof -
  let ?P = "\<lambda>x y. month (snd x) = 2 \<and> (day (snd x) = 12 \<or> day (snd x) = 18) \<longrightarrow> (6::real) \<le> y \<and> y < 15"
  have "?P (enumerate 0 dates ! k)
          (fst (for_each (precipitation_body R) (enumerate 0 dates) (snd (co2_run R g0))) ! k)"
    by (rule for_each_nth [where P = ?P])
       (use assms(1,2) in \<open>simp_all add: precipitation_body_forced length_dates\<close>)
  with assms(3,4) show ?thesis
    by (simp add: generate_fields precipitation_run_def)
qed

lemma forced_values:
  assumes "unit_interval_draws R"
  shows "105 \<le> aqi (generate R g0) ! 42" and "105 \<le> aqi (generate R g0) ! 48"
    and "6 \<le> precipitation (generate R g0) ! 42 \<and> precipitation (generate R g0) ! 42 < 15"
    and "6 \<le> precipitation (generate R g0) ! 48 \<and> precipitation (generate R g0) ! 48 < 15"
proof -
  show "105 \<le> aqi (generate R g0) ! 42" "105 \<le> aqi (generate R g0) ! 48"
    by (rule aqi_forced_nth; simp add: date_feb_12 date_feb_18)+
  show "6 \<le> precipitation (generate R g0) ! 42 \<and> precipitation (generate R g0) ! 42 < 15"
    by (rule precipitation_forced_nth [OF assms]; simp add: date_feb_12)
  show "6 \<le> precipitation (generate R g0) ! 48 \<and> precipitation (generate R g0) ! 48 < 15"
    by (rule precipitation_forced_nth [OF assms]; simp add: date_feb_18)
qed

lemma feb_joint_count_at_least_two:
  assumes "unit_interval_draws R"
  shows "2 \<le> feb_joint_count (generate R g0)"
proof -
  note f = forced_values [OF assms, of g0]
  let ?zs = "zip (slice 31 59 (precipitation (generate R g0))) (slice 31 59 (aqi (generate R g0)))"
  let ?Q = "\<lambda>(p :: real, a :: int). p > 5 \<and> a > 100"
  have len: "length ?zs = 28"
    by (simp add: length_slice generate_fields run_lengths)
  have z11: "?zs ! 11 = (precipitation (generate R g0) ! 42, aqi (generate R g0) ! 42)"
    by (simp add: length_slice slice_nth generate_fields run_lengths)
  have z17: "?zs ! 17 = (precipitation (generate R g0) ! 48, aqi (generate R g0) ! 48)"
    by (simp add: length_slice slice_nth generate_fields run_lengths)
  have "2 \<le> length (filter ?Q ?zs)"
  proof (rule two_hits_count [where i = 11 and j = 17])
    show "(11::nat) < 17" by simp
    show "17 < length ?zs" by (simp only: len)
    show "?Q (?zs ! 11)" unfolding z11 using f(1,3) by simp
    show "?Q (?zs ! 17)" unfolding z17 using f(2,4) by simp
  qed
  then show ?thesis
    by (simp add: feb_joint_count_def Let_def)
qed

text \<open>
  C10. Whatever the draws (as long as \<^verbatim>\<open>random_sample\<close> returns values of \<open>[0, 1)\<close>),
  positions 42 and 48 are February 12 and February 18, the air-quality value there is
  at least 105 (so above 100), the precipitation there is drawn from \<open>[6, 15)\<close> (so
  above 5), and the count of February days with precipitation above 5 and air quality
  above 100 is at least 2, never 1: both the generator's own count and the count the
  verifier computes from the written tables (the verifier does not abort on them).
\<close>

theorem forced_february_days:
  assumes "unit_interval_draws R"
  shows "dates ! 42 = \<lparr>year = 2023, month = 2, day = 12\<rparr> \<and>
         dates ! 48 = \<lparr>year = 2023, month = 2, day = 18\<rparr> \<and>
         105 \<le> aqi (generate R g0) ! 42 \<and> 105 \<le> aqi (generate R g0) ! 48 \<and>
         6 \<le> precipitation (generate R g0) ! 42 \<and> precipitation (generate R g0) ! 42 < 15 \<and>
         6 \<le> precipitation (generate R g0) ! 48 \<and> precipitation (generate R g0) ! 48 < 15 \<and>
         2 \<le> feb_joint_count (generate R g0) \<and> feb_joint_count (generate R g0) \<noteq> 1 \<and>
         \<not> isl (verify_tasks (to_csv (generate R g0))) \<and>
         2 \<le> t5_count (projr (verify_tasks (to_csv (generate R g0)))) \<and>
         t5_count (projr (verify_tasks (to_csv (generate R g0)))) \<noteq> 1"
proof -
  have d: "dates ! 42 = \<lparr>year = 2023, month = 2, day = 12\<rparr>"
          "dates ! 48 = \<lparr>year = 2023, month = 2, day = 18\<rparr>"
    by (simp_all add: dates_nth in_february)
  note f = forced_values [OF assms, of g0]
  note c = feb_joint_count_at_least_two [OF assms, of g0]
  from d f c show ?thesis
    by (simp add: verify_generated(1) verify_generated(3))
qed

lemma counter_rng_unit_interval: "unit_interval_draws counter_rng"
  by (simp add: unit_interval_draws_def counter_rng_def)

theorem forced_february_days_witness:
  "unit_interval_draws counter_rng \<and>
   105 \<le> aqi (generate counter_rng 0) ! 42 \<and> 105 \<le> aqi (generate counter_rng 0) ! 48 \<and>
   6 \<le> precipitation (generate counter_rng 0) ! 42 \<and>
   6 \<le> precipitation (generate counter_rng 0) ! 48 \<and>
   2 \<le> feb_joint_count (generate counter_rng 0) \<and>
   2 \<le> t5_count (projr (verify_tasks (to_csv (generate counter_rng 0))))"
  using forced_february_days [OF counter_rng_unit_interval, of 0] counter_rng_unit_interval
  by simp


section \<open>What the verdicts compare\<close>

text \<open>
  The values the generator draws under seed 42 are outside the model, and with them the
  facts that the T1 to T5 statistics of that one data set satisfy the targets. What the
  model does fix is what each verdict compares, for every data set the generator can
  write.
\<close>

text \<open>
  T1 on generated tables is PASS exactly when the February variance of the air-quality
  series is strictly greater than that of each of the other three; the ranking by
  pandas' sample variance is the ranking by \<^verbatim>\<open>np.var\<close>, which the generator prints.
\<close>

lemma strict_ranking:
  "float_gt (Some a) (py_max (Some t) [Some c, Some p]) \<longleftrightarrow> t < a \<and> c < a \<and> p < a"
  by (auto simp: float_gt_def py_max_def)

lemma variances_of_28:
  assumes "length xs = 28"
  shows "series_var xs = Some (sum_sq_dev xs / 27)" and "np_var xs = Some (sum_sq_dev xs / 28)"
  using assms by (auto simp: series_var_def np_var_def)

lemma variance_ranking_28:
  assumes "length xs = 28" and "length ys = 28"
  shows "float_gt (series_var xs) (series_var ys) \<longleftrightarrow> float_gt (np_var xs) (np_var ys)"
  by (simp add: variances_of_28 [OF assms(1)] variances_of_28 [OF assms(2)] float_gt_def
        divide_strict_right_mono)

lemma t1_verdict_generated:
  fixes R :: "'g np_random"
  defines "feb \<equiv> slice 31 59"
  shows "t1_pass (projr (verify_tasks (to_csv (generate R g0)))) \<longleftrightarrow>
           float_gt (np_var (feb (map real_of_int (aqi (generate R g0)))))
                    (np_var (feb (temperature (generate R g0)))) \<and>
           float_gt (np_var (feb (map real_of_int (aqi (generate R g0)))))
                    (np_var (feb (co2 (generate R g0)))) \<and>
           float_gt (np_var (feb (map real_of_int (aqi (generate R g0)))))
                    (np_var (feb (precipitation (generate R g0))))"
proof -
  have len: "length (feb (map real_of_int (aqi (generate R g0)))) = 28"
    "length (feb (temperature (generate R g0))) = 28"
    "length (feb (co2 (generate R g0))) = 28"
    "length (feb (precipitation (generate R g0))) = 28"
    by (simp_all add: feb_def slice_def generate_fields run_lengths)
  let ?A = "sum_sq_dev (feb (map real_of_int (aqi (generate R g0))))"
  let ?T = "sum_sq_dev (feb (temperature (generate R g0)))"
  let ?C = "sum_sq_dev (feb (co2 (generate R g0)))"
  let ?P = "sum_sq_dev (feb (precipitation (generate R g0)))"
  note v = variances_of_28 [OF len(1)] variances_of_28 [OF len(2)]
           variances_of_28 [OF len(3)] variances_of_28 [OF len(4)]
  have "t1_pass (projr (verify_tasks (to_csv (generate R g0)))) \<longleftrightarrow>
          float_gt (Some (?A / 27)) (py_max (Some (?T / 27)) [Some (?C / 27), Some (?P / 27)])"
    by (simp only: verify_generated(2) feb_def [symmetric] v)
  also have "\<dots> \<longleftrightarrow> ?T / 27 < ?A / 27 \<and> ?C / 27 < ?A / 27 \<and> ?P / 27 < ?A / 27"
    by (rule strict_ranking)
  also have "\<dots> \<longleftrightarrow>
      float_gt (Some (?A / 28)) (Some (?T / 28)) \<and> float_gt (Some (?A / 28)) (Some (?C / 28)) \<and>
      float_gt (Some (?A / 28)) (Some (?P / 28))"
    by (simp add: float_gt_def divide_strict_right_mono)
  finally show ?thesis
    by (simp only: v)
qed

text \<open>
  T5 on generated tables is PASS exactly when the count is 1 or 2 (\<open>verify_generated\<close>),
  and since the count is never below 2, exactly when it is 2.
\<close>

lemma t5_verdict_generated:
  assumes "unit_interval_draws R"
  shows "t5_pass (projr (verify_tasks (to_csv (generate R g0)))) \<longleftrightarrow>
           feb_joint_count (generate R g0) = 2"
  using feb_joint_count_at_least_two [OF assms, of g0]
  by (auto simp: verify_generated(4))


text \<open>
  The position reported as the maximum (T3) is the earliest one that attains it: every
  earlier value is strictly smaller, no later value is greater.
\<close>

lemma first_max_split:
  "\<exists>ys zs. b # xs = ys @ first_max b xs # zs \<and>
     (\<forall>y \<in> set ys. snd y < snd (first_max b xs)) \<and>
     (\<forall>z \<in> set zs. snd z \<le> snd (first_max b xs))"
proof (induction xs arbitrary: b)
  case Nil
  show ?case by (rule exI [of _ "[]"], rule exI [of _ "[]"]) simp
next
  case (Cons x xs)
  show ?case
  proof (cases "snd x > snd b")
    case True
    then have f: "first_max b (x # xs) = first_max x xs" by simp
    from Cons.IH [of x] obtain ys zs where s: "x # xs = ys @ first_max x xs # zs"
      and lo: "\<forall>y \<in> set ys. snd y < snd (first_max x xs)"
      and hi: "\<forall>z \<in> set zs. snd z \<le> snd (first_max x xs)" by blast
    have "x \<in> set (ys @ first_max x xs # zs)" unfolding s [symmetric] by simp
    then have "snd x \<le> snd (first_max x xs)" using lo hi by auto
    with True have b: "snd b < snd (first_max x xs)" by simp
    have 1: "b # x # xs = (b # ys) @ first_max x xs # zs" using s by simp
    have 2: "\<forall>y \<in> set (b # ys). snd y < snd (first_max x xs)" using b lo by simp
    show ?thesis
      unfolding f
      by (rule exI [of _ "b # ys"], rule exI [of _ zs]) (use 1 2 hi in blast)
  next
    case False
    then have f: "first_max b (x # xs) = first_max b xs" by simp
    from Cons.IH [of b] obtain ys zs where s: "b # xs = ys @ first_max b xs # zs"
      and lo: "\<forall>y \<in> set ys. snd y < snd (first_max b xs)"
      and hi: "\<forall>z \<in> set zs. snd z \<le> snd (first_max b xs)" by blast
    show ?thesis
    proof (cases ys)
      case Nil
      note s [unfolded Nil append_Nil]
      then have e: "first_max b xs = b" "zs = xs" by (metis list.inject)+
      have 2: "\<forall>z \<in> set (x # xs). snd z \<le> snd b" using False hi e by auto
      show ?thesis
        unfolding f e(1)
        by (rule exI [of _ "[]"], rule exI [of _ "x # xs"]) (use 2 in simp)
    next
      case (Cons y ys')
      note s [unfolded Cons append_Cons]
      then have y: "y = b" and xs: "xs = ys' @ first_max b xs # zs" by (metis list.inject)+
      have bl: "snd b < snd (first_max b xs)" using lo Cons y by simp
      have 1: "b # x # xs = (b # x # ys') @ first_max b xs # zs" using xs by simp
      have 2: "\<forall>u \<in> set (b # x # ys'). snd u < snd (first_max b xs)"
        using lo Cons y bl False by auto
      show ?thesis
        unfolding f
        by (rule exI [of _ "b # x # ys'"], rule exI [of _ zs]) (use 1 2 hi in blast)
    qed
  qed
qed


lemma argmax_earliest_maximum:
  assumes "argmax xs = Some l"
  shows "\<exists>ys v zs. xs = ys @ (l, v) # zs \<and>
           (\<forall>y \<in> set ys. snd y < v) \<and> (\<forall>z \<in> set zs. snd z \<le> v)"
proof (cases xs)
  case Nil
  with assms show ?thesis by (simp add: argmax_def)
next
  case (Cons b rest)
  with assms have l: "l = fst (first_max b rest)" by (simp add: argmax_def)
  from first_max_split [of b rest] obtain ys zs where
    "b # rest = ys @ first_max b rest # zs"
    "\<forall>y \<in> set ys. snd y < snd (first_max b rest)"
    "\<forall>z \<in> set zs. snd z \<le> snd (first_max b rest)" by blast
  then show ?thesis
    unfolding Cons l
    by (intro exI [of _ ys] exI [of _ "snd (first_max b rest)"] exI [of _ zs]) simp
qed


section \<open>Reproducibility\<close>

text \<open>
  C9. The generator is deterministic given the fixed seed. Two runs differ at most in
  the state \<open>g1\<close>, \<open>g2\<close> the process-wide generator is in when the script starts;
  the script calls \<^verbatim>\<open>np.random.seed(42)\<close> before its first draw, and seeding replaces
  the state whatever it was. So both runs produce the same four series, position by
  position, and every statistic and verdict computed from them is the same.
\<close>

theorem same_seed_same_series:
  assumes "\<forall>g g'. seed R 42 g = seed R 42 g'"
  shows "generate R g1 = generate R g2 \<and>
         (\<forall>i. temperature (generate R g1) ! i = temperature (generate R g2) ! i \<and>
              aqi (generate R g1) ! i = aqi (generate R g2) ! i \<and>
              co2 (generate R g1) ! i = co2 (generate R g2) ! i \<and>
              precipitation (generate R g1) ! i = precipitation (generate R g2) ! i) \<and>
         feb_joint_count (generate R g1) = feb_joint_count (generate R g2) \<and>
         verify_tasks (to_csv (generate R g1)) = verify_tasks (to_csv (generate R g2))"
proof -
  from assms have "seed R 42 g1 = seed R 42 g2" by blast
  then have "generate R g1 = generate R g2"
    by (simp add: generate_def)
  then show ?thesis by simp
qed

theorem same_seed_same_series_witness:
  "seed counter_rng 42 0 = seed counter_rng 42 7 \<and>
   generate counter_rng 0 = generate counter_rng 7 \<and>
   temperature (generate counter_rng 0) ! 0 = temperature (generate counter_rng 7) ! 0 \<and>
   verify_tasks (to_csv (generate counter_rng 0)) = verify_tasks (to_csv (generate counter_rng 7))"
proof -
  have h: "\<forall>g g'. seed counter_rng 42 g = seed counter_rng 42 g'"
    by (simp add: counter_rng_def)
  from same_seed_same_series [OF h, of 0 7] h show ?thesis by simp
qed

section \<open>Missing, unreadable and misaligned input files\<close>



lemma load_data_unavailable: "unavailable f \<Longrightarrow> load_data f = Inl (SystemExit 1)"
  by (cases f) (simp_all add: unavailable_def load_data_def)


subsection \<open>When the verifier aborts\<close>




























lemma all_available:
  assumes "\<not> (unavailable (temperature_csv fs) \<or> unavailable (air_quality_csv fs) \<or>
           unavailable (co2_csv fs) \<or> unavailable (precipitation_csv fs))"
  shows "\<exists>t a c p. fs = \<lparr>temperature_csv = Csv t, air_quality_csv = Csv a,
                           co2_csv = Csv c, precipitation_csv = Csv p\<rparr>"
  using assms
  by (cases fs; cases "temperature_csv fs"; cases "air_quality_csv fs"; cases "co2_csv fs";
      cases "precipitation_csv fs") (simp_all add: unavailable_def)






end
